theory Spec2Isabelle
  imports Complex_Main "HOL-Library.Word"
begin

chapter \<open>Market-data pipeline: order book, ring buffer, liquidity tracker, iceberg detector\<close>

text \<open>
  Conventions of the embedding.
  \<^item> A C++ \<open>double\<close> is modelled as a \<open>real\<close>: comparisons, sums and products are exact.
    Rounding error, infinities and NaN are outside the model.
  \<^item> \<open>uint64_t\<close> and \<open>size_t\<close> are \<open>64 word\<close>; arithmetic on them wraps.
  \<^item> Console output is modelled only where it is the event a component emits; it is
    returned as a list of events next to the new state.
\<close>

section \<open>Iceberg detector (iceberg\_detector.cpp, IcebergDetector.hpp)\<close>

record IcebergLevelState =
  last_quantity :: real
  iceberg_counter :: int

text \<open>The default member initialisers of \<open>IcebergLevelState\<close>.\<close>

definition IcebergLevelState_default :: IcebergLevelState where
  "IcebergLevelState_default = \<lparr>last_quantity = 0, iceberg_counter = 0\<rparr>"

text \<open>\<open>book_state_\<close>: symbol to price to level state.\<close>

type_synonym book_state = "string \<rightharpoonup> (real \<rightharpoonup> IcebergLevelState)"

text \<open>What \<open>emit_iceberg_event\<close> prints: symbol, side, price.\<close>

record IcebergEvent =
  ev_symbol :: string
  ev_price :: real
  ev_is_bid :: bool

definition emit_iceberg_event :: "string \<Rightarrow> real \<Rightarrow> bool \<Rightarrow> IcebergEvent" where
  "emit_iceberg_event symbol price is_bid =
     \<lparr>ev_symbol = symbol, ev_price = price, ev_is_bid = is_bid\<rparr>"

text \<open>
  \<open>book_state_[symbol][price]\<close>: \<open>operator[]\<close> of both maps inserts a default value
  for a missing key, so a level never seen reads as the default state.
\<close>

definition level_at :: "book_state \<Rightarrow> string \<Rightarrow> real \<Rightarrow> IcebergLevelState" where
  "level_at bs symbol price =
     (case bs symbol of
        None \<Rightarrow> IcebergLevelState_default
      | Some m \<Rightarrow> (case m price of None \<Rightarrow> IcebergLevelState_default | Some st \<Rightarrow> st))"

definition set_level :: "book_state \<Rightarrow> string \<Rightarrow> real \<Rightarrow> IcebergLevelState \<Rightarrow> book_state" where
  "set_level bs symbol price st =
     bs(symbol \<mapsto> (case bs symbol of None \<Rightarrow> Map.empty | Some m \<Rightarrow> m)(price \<mapsto> st))"

definition detect_iceberg ::
  "string \<Rightarrow> real \<Rightarrow> real \<Rightarrow> bool \<Rightarrow> book_state \<Rightarrow> IcebergEvent list \<times> book_state" where
  "detect_iceberg symbol price quantity is_bid bs =
     (let level_state = level_at bs symbol price in
      let (evs, counter) =
        (if quantity < last_quantity level_state \<and> quantity > 0
         then (let c = iceberg_counter level_state + 1 in
               if c \<ge> 3 then ([emit_iceberg_event symbol price is_bid], 0) else ([], c))
         else ([], 0))
      in (evs, set_level bs symbol price \<lparr>last_quantity = quantity, iceberg_counter = counter\<rparr>))"

text \<open>The constructor leaves \<open>book_state_\<close> empty.\<close>

definition IcebergDetector_new :: book_state where
  "IcebergDetector_new = Map.empty"

text \<open>A run of \<open>detect_iceberg\<close> over successive observations of one level.\<close>

fun observe_level ::
  "string \<Rightarrow> real \<Rightarrow> bool \<Rightarrow> real list \<Rightarrow> book_state \<Rightarrow> IcebergEvent list list \<times> book_state" where
  "observe_level symbol price is_bid [] bs = ([], bs)"
| "observe_level symbol price is_bid (q # qs) bs =
     (let (evs, bs') = detect_iceberg symbol price q is_bid bs;
          (rest, bs'') = observe_level symbol price is_bid qs bs'
      in (evs # rest, bs''))"

text \<open>The counters a run from the empty state can hold (the \<open>int\<close> counter of the
  source is modelled unbounded; it never leaves this range).\<close>

definition counters_small :: "book_state \<Rightarrow> bool" where
  "counters_small bs \<longleftrightarrow> (\<forall>s p. 0 \<le> iceberg_counter (level_at bs s p) \<and> iceberg_counter (level_at bs s p) \<le> 2)"

section \<open>Byte ring (mmap\_buffer.cpp, mmap\_buffer.hpp)\<close>

text \<open>The members \<open>buffer_\<close>, \<open>capacity_\<close>, \<open>head_\<close>, \<open>tail_\<close>, \<open>read_only_\<close>.\<close>

record MMapBuffer =
  buffer :: "8 word list"
  capacity :: "64 word"
  head :: "64 word"
  tail :: "64 word"
  read_only :: bool

text \<open>
  Both constructors allocate \<open>capacity\<close> bytes with \<open>new uint8_t[capacity]\<close> and set both
  indices to 0. The bytes are not initialised by the source; \<open>mem\<close> stands for whatever the
  allocation holds. The one-argument constructor is the two-argument one at
  \<open>read_only = false\<close>.
\<close>

definition MMapBuffer_new :: "64 word \<Rightarrow> bool \<Rightarrow> (nat \<Rightarrow> 8 word) \<Rightarrow> MMapBuffer" where
  "MMapBuffer_new cap ro mem =
     \<lparr>buffer = map mem [0..<unat cap], capacity = cap,
      head = 0, tail = 0, read_only = ro\<rparr>"

text \<open>
  \<open>memcpy(dst + off, src, n)\<close> on byte lists. The C call is defined only for
  \<open>off + n \<le> length dst\<close> and \<open>n \<le> length src\<close>; every call below stays in that range
  when the indices are below the capacity.
\<close>

definition memcpy :: "8 word list \<Rightarrow> nat \<Rightarrow> 8 word list \<Rightarrow> nat \<Rightarrow> 8 word list" where
  "memcpy dst off src n = take off dst @ take n src @ drop (off + n) dst"

text \<open>
  The \<open>memcpy\<close> calls of \<open>MMapBuffer::write\<close>, in order, as (offset in the ring, offset in
  \<open>data\<close>, byte count): the first is always made, the second only when
  \<open>second_chunk > 0\<close>.
\<close>

definition write_to_write :: "64 word \<Rightarrow> MMapBuffer \<Rightarrow> 64 word" where
  "write_to_write len b =
     (let space = (tail b + capacity b - head b - 1) mod capacity b
      in min len space)"

definition write_memcpys :: "64 word \<Rightarrow> MMapBuffer \<Rightarrow> (nat \<times> nat \<times> nat) list" where
  "write_memcpys len b =
     (let to_write = write_to_write len b;
          first_chunk = min to_write (capacity b - (head b mod capacity b));
          second_chunk = to_write - first_chunk
      in (unat (head b mod capacity b), 0, unat first_chunk) #
         (if second_chunk > 0 then [(0, unat first_chunk, unat second_chunk)] else []))"

text \<open>
  \<open>MMapBuffer::write\<close> returns the byte count and the new ring. \<open>None\<close> stands for the undefined
  \<open>% 0\<close> of a ring of capacity 0 that is not read-only.
\<close>

definition MMapBuffer_write :: "8 word list \<Rightarrow> 64 word \<Rightarrow> MMapBuffer \<Rightarrow> (64 word \<times> MMapBuffer) option" where
  "MMapBuffer_write data len b =
     (if read_only b then Some (0, b)
      else if capacity b = 0 then None
      else
        let to_write = write_to_write len b;
            buf = foldl (\<lambda>dst (off, src_off, n). memcpy dst off (drop src_off data) n)
                    (buffer b) (write_memcpys len b)
        in Some (to_write,
                 b\<lparr>buffer := buf, head := (head b + to_write) mod capacity b\<rparr>))"

text \<open>\<open>MMapBuffer::read\<close> returns the bytes copied into \<open>out\<close>, their count and the new ring.\<close>

definition MMapBuffer_read :: "64 word \<Rightarrow> MMapBuffer \<Rightarrow> (8 word list \<times> 64 word \<times> MMapBuffer) option" where
  "MMapBuffer_read max_len b =
     (if capacity b = 0 then None
      else
        let available = (head b + capacity b - tail b) mod capacity b;
            to_read = min max_len available;
            first_chunk = min to_read (capacity b - (tail b mod capacity b));
            second_chunk = to_read - first_chunk;
            out = take (unat first_chunk) (drop (unat (tail b mod capacity b)) (buffer b)) @
                  (if second_chunk > 0 then take (unat second_chunk) (buffer b) else [])
        in Some (out, to_read, b\<lparr>tail := (tail b + to_read) mod capacity b\<rparr>))"

text \<open>A client's calls on one ring, run in order.\<close>

datatype ring_call = Write "8 word list" "64 word" | Read "64 word"

fun ring_calls :: "ring_call list \<Rightarrow> MMapBuffer \<Rightarrow> MMapBuffer option" where
  "ring_calls [] b = Some b"
| "ring_calls (Write data len # cs) b =
     (case MMapBuffer_write data len b of None \<Rightarrow> None | Some (n, b') \<Rightarrow> ring_calls cs b')"
| "ring_calls (Read max_len # cs) b =
     (case MMapBuffer_read max_len b of None \<Rightarrow> None | Some (out, n, b') \<Rightarrow> ring_calls cs b')"

text \<open>The indices a ring holds between calls: both below the capacity, as the stores
  \<open>% capacity\<close> leave them; and a capacity that an allocation can have.\<close>

definition ring_ok :: "MMapBuffer \<Rightarrow> bool" where
  "ring_ok b \<longleftrightarrow>
     head b < capacity b \<and> tail b < capacity b \<and> capacity b \<le> 2 ^ 63 \<and>
     length (buffer b) = unat (capacity b)"

section \<open>\<open>std::map<double, V>\<close> and rounding\<close>

text \<open>
  A \<open>std::map\<close> keyed by \<open>double\<close> is an association list with strictly ascending
  keys; iteration of the C++ map is iteration of the list. \<open>m[k] = v\<close> is
  \<open>map_assign\<close>, \<open>m.erase(k)\<close> is \<open>map_erase\<close>, \<open>m.find(k)\<close> and \<open>m.count(k)\<close> are
  \<open>map_of m k\<close>.
\<close>

fun map_assign :: "real \<Rightarrow> 'v \<Rightarrow> (real \<times> 'v) list \<Rightarrow> (real \<times> 'v) list" where
  "map_assign k v [] = [(k, v)]"
| "map_assign k v ((k', v') # m) =
     (if k < k' then (k, v) # (k', v') # m
      else if k = k' then (k, v) # m
      else (k', v') # map_assign k v m)"

fun map_erase :: "real \<Rightarrow> (real \<times> 'v) list \<Rightarrow> (real \<times> 'v) list" where
  "map_erase k [] = []"
| "map_erase k ((k', v') # m) = (if k = k' then m else (k', v') # map_erase k m)"

text \<open>\<open>std::round\<close>: to the nearest integer, halves away from zero.\<close>

definition std_round :: "real \<Rightarrow> real" where
  "std_round x = (if x \<ge> 0 then of_int \<lfloor>x + 1 / 2\<rfloor> else of_int \<lceil>x - 1 / 2\<rceil>)"

text \<open>
  A quotient of two doubles whose divisor is 0 is an infinity or NaN; \<open>None\<close> stands for
  that, so that HOL's \<open>x / 0 = 0\<close> never passes for a ratio the code computes.
\<close>

definition fdiv :: "real \<Rightarrow> real \<Rightarrow> real option" where
  "fdiv x y = (if y = 0 then None else Some (x / y))"

section \<open>Liquidity tracker (liquidity\_tracker.hpp, liquidity\_tracker.cpp,
  liquidity\_tracker\_dual\_mode.cpp)\<close>


record OrderBookLevel =
  level_price :: real
  volume :: real

text \<open>
  The members of \<open>LiquidityTracker\<close>. The \<open>order_\<close> members and the two order-flow
  callbacks are those the dual-mode source initialises and uses. A callback slot is a
  \<open>std::function\<close>; the code only tests whether it is set and calls it, so a slot is the
  flag "set", and a call is an event of the output.
\<close>

record LiquidityTracker =
  buy_bucket_size :: real
  sell_bucket_size :: real
  cancel_bucket_size :: real
  depth_levels_track :: nat
  depth_levels_report :: nat
  lt_tick_size :: real
  last_bids_volume :: "(real \<times> real) list"
  last_asks_volume :: "(real \<times> real) list"
  buy_accum_usd :: real
  sell_accum_usd :: real
  buy_bucket_buyflow :: real
  buy_bucket_sellflow :: real
  sell_bucket_sellflow :: real
  sell_bucket_buyflow :: real
  buy_start_ts_ns :: "64 word"
  sell_start_ts_ns :: "64 word"
  order_buy_accum_usd :: real
  order_sell_accum_usd :: real
  order_buy_start_ts_ns :: "64 word"
  order_sell_start_ts_ns :: "64 word"
  cancel_buy_accum_usd :: real
  cancel_sell_accum_usd :: real
  cancel_buy_bucket_total :: real
  cancel_sell_bucket_total :: real
  cancel_buy_start_ts_ns :: "64 word"
  cancel_sell_start_ts_ns :: "64 word"
  buy_bucket_cb :: bool
  sell_bucket_cb :: bool
  cancel_buy_cb :: bool
  cancel_sell_cb :: bool
  liquidity_change_cb :: bool
  order_flow_buy_cb :: bool
  order_flow_sell_cb :: bool

datatype lt_slot = BuyBucket | SellBucket | CancelBuy | CancelSell | OrderFlowBuy | OrderFlowSell

text \<open>
  The output of the tracker: a call of a bucket callback
  \<open>(is_buy, duration_ns, bucket_size, ratio)\<close>, a call of the liquidity-change callback
  \<open>{price, volume_delta, timestamp_ns, is_bid}\<close>, and the three classification lines of
  \<open>detectLiquidityChanges\<close> with their side, dollar value and price.
\<close>

datatype lt_event =
    BucketCallback lt_slot bool "64 word" real "real option"
  | LiquidityChangeCallback real real "64 word" bool
  | OrderFlowAdd bool real real
  | CancelDetected bool real real
  | OrderFlowRemove bool real real






definition round_price :: "LiquidityTracker \<Rightarrow> real \<Rightarrow> real" where
  "round_price s p =
     (if lt_tick_size s \<le> 0 then p else std_round (p / lt_tick_size s) * lt_tick_size s)"

subsection \<open>\<open>onTrade\<close> of liquidity\_tracker.cpp\<close>


subsection \<open>\<open>onTrade\<close> of liquidity\_tracker\_dual\_mode.cpp\<close>



text \<open>Vocabulary of the bucket claims, by side (\<open>True\<close> is the buy side).\<close>

fun is_closure :: "bool \<Rightarrow> lt_event \<Rightarrow> bool" where
  "is_closure side (BucketCallback BuyBucket b d sz r) = side"
| "is_closure side (BucketCallback SellBucket b d sz r) = (\<not> side)"
| "is_closure side _ = False"

definition closures :: "bool \<Rightarrow> lt_event list \<Rightarrow> nat" where
  "closures side evs = length (filter (is_closure side) evs)"






subsection \<open>Order-book updates of liquidity\_tracker\_dual\_mode.cpp\<close>

definition processCancelVolumeInternal ::
  "bool \<Rightarrow> real \<Rightarrow> 64 word \<Rightarrow> LiquidityTracker \<Rightarrow> lt_event list \<times> LiquidityTracker" where
  "processCancelVolumeInternal is_buy cancel_volume timestamp_ns s =
     (if is_buy then
        (let s' = s\<lparr>cancel_buy_start_ts_ns :=
                       (if cancel_buy_start_ts_ns s = 0 then timestamp_ns
                        else cancel_buy_start_ts_ns s),
                     cancel_buy_accum_usd := cancel_buy_accum_usd s + cancel_volume,
                     cancel_buy_bucket_total := cancel_buy_bucket_total s + cancel_volume\<rparr>
         in if cancel_buy_accum_usd s' \<ge> cancel_bucket_size s' then
              (let duration_ns = timestamp_ns - cancel_buy_start_ts_ns s';
                   cancel_ratio = fdiv (cancel_buy_bucket_total s') (cancel_bucket_size s')
               in ((if cancel_buy_cb s'
                    then [BucketCallback CancelBuy True duration_ns (cancel_bucket_size s')
                            cancel_ratio]
                    else []),
                   s'\<lparr>cancel_buy_accum_usd := 0, cancel_buy_bucket_total := 0,
                      cancel_buy_start_ts_ns := 0\<rparr>))
            else ([], s'))
      else
        (let s' = s\<lparr>cancel_sell_start_ts_ns :=
                       (if cancel_sell_start_ts_ns s = 0 then timestamp_ns
                        else cancel_sell_start_ts_ns s),
                     cancel_sell_accum_usd := cancel_sell_accum_usd s + cancel_volume,
                     cancel_sell_bucket_total := cancel_sell_bucket_total s + cancel_volume\<rparr>
         in if cancel_sell_accum_usd s' \<ge> cancel_bucket_size s' then
              (let duration_ns = timestamp_ns - cancel_sell_start_ts_ns s';
                   cancel_ratio = fdiv (cancel_sell_bucket_total s') (cancel_bucket_size s')
               in ((if cancel_sell_cb s'
                    then [BucketCallback CancelSell False duration_ns (cancel_bucket_size s')
                            cancel_ratio]
                    else []),
                   s'\<lparr>cancel_sell_accum_usd := 0, cancel_sell_bucket_total := 0,
                      cancel_sell_start_ts_ns := 0\<rparr>))
            else ([], s')))"

text \<open>
  The body of the two \<open>for\<close> statements of \<open>detectLiquidityChanges\<close>, for one entry
  \<open>(price, volume)\<close> of the current side; \<open>is_bid\<close> tells which of the two. The state carried is the
  running \<open>total_..._additions\<close>, the output so far and the tracker. (The source also sums
  \<open>total_..._removals\<close>, which nothing reads.)
\<close>

definition analyze_level ::
  "bool \<Rightarrow> 64 word \<Rightarrow> (real \<times> real) list \<Rightarrow> real \<times> real \<Rightarrow>
   real \<times> lt_event list \<times> LiquidityTracker \<Rightarrow> real \<times> lt_event list \<times> LiquidityTracker" where
  "analyze_level is_bid timestamp_ns prev entry acc =
     (let (price, volume) = entry;
          (total_additions, evs, s) = acc;
          prev_volume = (case map_of prev price of Some v \<Rightarrow> v | None \<Rightarrow> 0)
      in if \<bar>volume - prev_volume\<bar> > 1 / 10 ^ 8 then
           (let volume_delta = volume - prev_volume;
                value_delta = volume_delta * price;
                (adds, evs1, s1) =
                  (if volume_delta > 0 then
                     (total_additions + value_delta, [OrderFlowAdd is_bid value_delta price], s)
                   else if volume_delta < - prev_volume * (3 / 10) \<and> prev_volume > 0 then
                     (let (cevs, s') =
                            processCancelVolumeInternal is_bid \<bar>value_delta\<bar> timestamp_ns s
                      in (total_additions, CancelDetected is_bid price \<bar>value_delta\<bar> # cevs, s'))
                   else (total_additions, [OrderFlowRemove is_bid \<bar>value_delta\<bar> price], s))
            in (adds,
                evs @ evs1 @
                  (if liquidity_change_cb s1
                   then [LiquidityChangeCallback price volume_delta timestamp_ns is_bid]
                   else []),
                s1))
         else (total_additions, evs, s))"

definition detectLiquidityChanges ::
  "64 word \<Rightarrow> (real \<times> real) list \<Rightarrow> (real \<times> real) list \<Rightarrow> LiquidityTracker \<Rightarrow>
   lt_event list \<times> LiquidityTracker" where
  "detectLiquidityChanges timestamp_ns prev_bids prev_asks s =
     (let (total_bid_additions, evs1, s1) =
            foldl (\<lambda>acc entry. analyze_level True timestamp_ns prev_bids entry acc)
              (0, [], s) (last_bids_volume s);
          (total_ask_additions, evs2, s2) =
            foldl (\<lambda>acc entry. analyze_level False timestamp_ns prev_asks entry acc)
              (0, evs1, s1) (last_asks_volume s);
          (evs3, s3) =
            (if total_bid_additions > 0 then
               (let s' = s2\<lparr>order_buy_start_ts_ns :=
                               (if order_buy_start_ts_ns s2 = 0 then timestamp_ns
                                else order_buy_start_ts_ns s2),
                             order_buy_accum_usd := order_buy_accum_usd s2 + total_bid_additions\<rparr>
                in if order_buy_accum_usd s' \<ge> buy_bucket_size s' then
                     ((if order_flow_buy_cb s'
                       then [BucketCallback OrderFlowBuy True
                               (timestamp_ns - order_buy_start_ts_ns s') (buy_bucket_size s')
                               (Some 1)]
                       else []),
                      s'\<lparr>order_buy_accum_usd := 0, order_buy_start_ts_ns := 0\<rparr>)
                   else ([], s'))
             else ([], s2));
          (evs4, s4) =
            (if total_ask_additions > 0 then
               (let s' = s3\<lparr>order_sell_start_ts_ns :=
                               (if order_sell_start_ts_ns s3 = 0 then timestamp_ns
                                else order_sell_start_ts_ns s3),
                             order_sell_accum_usd := order_sell_accum_usd s3 + total_ask_additions\<rparr>
                in if order_sell_accum_usd s' \<ge> sell_bucket_size s' then
                     ((if order_flow_sell_cb s'
                       then [BucketCallback OrderFlowSell False
                               (timestamp_ns - order_sell_start_ts_ns s') (sell_bucket_size s')
                               (Some 1)]
                       else []),
                      s'\<lparr>order_sell_accum_usd := 0, order_sell_start_ts_ns := 0\<rparr>)
                   else ([], s'))
             else ([], s3))
      in (evs2 @ evs3 @ evs4, s4))"

definition onOrderBookUpdate ::
  "64 word \<Rightarrow> OrderBookLevel list \<Rightarrow> OrderBookLevel list \<Rightarrow> LiquidityTracker \<Rightarrow>
   lt_event list \<times> LiquidityTracker" where
  "onOrderBookUpdate timestamp_ns bids asks s =
     (let prev_bids = last_bids_volume s;
          prev_asks = last_asks_volume s;
          new_bids = foldl (\<lambda>m l. map_assign (round_price s (level_price l)) (volume l) m) []
                       (take (depth_levels_track s) bids);
          new_asks = foldl (\<lambda>m l. map_assign (round_price s (level_price l)) (volume l) m) []
                       (take (depth_levels_track s) asks)
      in detectLiquidityChanges timestamp_ns prev_bids prev_asks
           (s\<lparr>last_bids_volume := new_bids, last_asks_volume := new_asks\<rparr>))"





section \<open>Order book keeper (binance\_orderbook\_w1.cpp)\<close>

text \<open>
  One side of the book, \<open>std::map<double, std::pair<double, std::string>>\<close>: price to
  (quantity, source), ascending in price. The best bid is the last entry of \<open>bids\<close>, the
  best ask the first entry of \<open>asks\<close>.
\<close>

type_synonym book_side = "(real \<times> real \<times> string) list"

text \<open>
  The members of \<open>BinanceOrderBook\<close> that the book operations read or write.
  \<open>orderbook_mutex\<close> tells whether the calling thread holds the mutex of that name. Of
  \<open>cached_metrics\<close> the three figures computed from the best prices are kept; the
  imbalance figures are computed from a copy of the book and change nothing else.
\<close>

record BinanceOrderBook =
  bids :: book_side
  asks :: book_side
  tick_size :: real
  last_update_id :: "64 word"
  auto_print_enabled :: bool
  orderbook_mutex :: bool
  best_bid :: real
  best_ask :: real
  spread :: real

definition BinanceOrderBook_new :: BinanceOrderBook where
  "BinanceOrderBook_new =
     \<lparr>bids = [], asks = [], tick_size = 1 / 100, last_update_id = 0,
      auto_print_enabled = True, orderbook_mutex = False,
      best_bid = 0, best_ask = 0, spread = 0\<rparr>"


text \<open>
  A call either returns, or blocks for ever on a mutex its own thread already holds
  (\<open>std::lock_guard\<close> on a \<open>std::mutex\<close> the thread owns; the standard leaves this
  undefined, the default pthread mutex never returns). \<open>Blocked b\<close> carries the book as it
  is when the thread stops.
\<close>

datatype 'a outcome = Returned 'a | Blocked BinanceOrderBook

definition round_to_tick_size :: "real \<Rightarrow> real \<Rightarrow> real" where
  "round_to_tick_size tick price =
     (if \<bar>tick\<bar> < 1 / 10 ^ 9 then price else std_round (price / tick) * tick)"

definition calculate_all_metrics :: "BinanceOrderBook \<Rightarrow> BinanceOrderBook outcome" where
  "calculate_all_metrics b =
     (if orderbook_mutex b then Blocked b
      else
        let bb = (if bids b \<noteq> [] then fst (last (bids b)) else best_bid b);
            ba = (if asks b \<noteq> [] then fst (hd (asks b)) else best_ask b);
            sp = (if bb > 0 \<and> ba > 0 then ba - bb else spread b)
        in Returned (b\<lparr>best_bid := bb, best_ask := ba, spread := sp\<rparr>))"

text \<open>
  The part of \<open>print_orderbook\<close> that changes the book: after the metrics, and only when
  auto-print is enabled, every bid priced below 95\% of the best bid is erased.
\<close>

definition sweep_bids :: "book_side \<Rightarrow> book_side" where
  "sweep_bids bs =
     (let best = (if bs \<noteq> [] then fst (last bs) else 0)
      in if best > 0 then filter (\<lambda>(p, qs). \<not> p < best * (95 / 100)) bs else bs)"

definition print_orderbook :: "BinanceOrderBook \<Rightarrow> BinanceOrderBook outcome" where
  "print_orderbook b =
     (case calculate_all_metrics b of
        Blocked x \<Rightarrow> Blocked x
      | Returned b1 \<Rightarrow>
          if \<not> auto_print_enabled b1 then Returned b1
          else Returned (b1\<lparr>bids := sweep_bids (bids b1)\<rparr>))"

text \<open>
  A price level as it arrives: the results of \<open>std::stod\<close> on its two strings, \<open>None\<close>
  where \<open>std::stod\<close> throws. The JSON decoding itself is outside the model.
\<close>

type_synonym wire_level = "real option \<times> real option"

record snapshot =
  lastUpdateId :: "64 word"
  snapshot_bids :: "wire_level list"
  snapshot_asks :: "wire_level list"

text \<open>A decoded \<open>depthUpdate\<close> message: the members \<open>U\<close>, \<open>u\<close>, \<open>b\<close>, \<open>a\<close>.\<close>

record depth_update =
  first_update_id :: "64 word"
  update_id :: "64 word"
  bids_json :: "wire_level list"
  asks_json :: "wire_level list"

text \<open>
  The two passes over wire levels. The flag is \<open>False\<close> when \<open>std::stod\<close> threw; the levels
  before the bad one have been stored by then.
\<close>

fun snapshot_levels :: "real \<Rightarrow> wire_level list \<Rightarrow> book_side \<Rightarrow> book_side \<times> bool" where
  "snapshot_levels tick [] m = (m, True)"
| "snapshot_levels tick ((Some price, Some quantity) # ls) m =
     snapshot_levels tick ls
       (if quantity > 0 then map_assign (round_to_tick_size tick price) (quantity, ''API'') m
        else m)"
| "snapshot_levels tick (l # ls) m = (m, False)"

fun diff_levels :: "real \<Rightarrow> wire_level list \<Rightarrow> book_side \<Rightarrow> book_side \<times> bool" where
  "diff_levels tick [] m = (m, True)"
| "diff_levels tick ((Some price, Some quantity) # ls) m =
     diff_levels tick ls
       (if quantity > 0 then map_assign (round_to_tick_size tick price) (quantity, ''WS'') m
        else map_erase (round_to_tick_size tick price) m)"
| "diff_levels tick (l # ls) m = (m, False)"

text \<open>
  What a call did with its message: skipped it as old, applied it, gave up on an
  exception, or asked for a new snapshot (with what became of that).
\<close>

datatype update_result = Ignored | Applied | Failed | Refetch update_result

definition process_api_snapshot ::
  "snapshot \<Rightarrow> BinanceOrderBook \<Rightarrow> (update_result \<times> BinanceOrderBook) outcome" where
  "process_api_snapshot snap b =
     (if orderbook_mutex b then Blocked b
      else
        let b0 = b\<lparr>last_update_id := lastUpdateId snap, bids := [], asks := []\<rparr>;
            (bids1, ok1) = snapshot_levels (tick_size b) (snapshot_bids snap) []
        in if \<not> ok1 then Returned (Failed, b0\<lparr>bids := bids1\<rparr>)
           else
             let (asks1, ok2) = snapshot_levels (tick_size b) (snapshot_asks snap) []
             in if \<not> ok2 then Returned (Failed, b0\<lparr>bids := bids1, asks := asks1\<rparr>)
                else (case print_orderbook (b0\<lparr>bids := bids1, asks := asks1\<rparr>) of
                        Blocked x \<Rightarrow> Blocked x
                      | Returned b' \<Rightarrow> Returned (Applied, b')))"

text \<open>
  \<open>fetch_api_snapshot\<close>: \<open>fetched\<close> is what the HTTP request yields, \<open>None\<close> when the
  transfer fails, the status is not 200 or the body is not a snapshot.
\<close>

definition fetch_api_snapshot ::
  "snapshot option \<Rightarrow> BinanceOrderBook \<Rightarrow> (update_result \<times> BinanceOrderBook) outcome" where
  "fetch_api_snapshot fetched b =
     (case fetched of None \<Rightarrow> Returned (Failed, b) | Some snap \<Rightarrow> process_api_snapshot snap b)"

definition process_ws_update ::
  "snapshot option \<Rightarrow> depth_update \<Rightarrow> BinanceOrderBook \<Rightarrow>
   (update_result \<times> BinanceOrderBook) outcome" where
  "process_ws_update fetched d b =
     (let current_last_id = last_update_id b
      in if update_id d \<le> current_last_id then Returned (Ignored, b)
         else if first_update_id d \<le> current_last_id + 1 then
           (if orderbook_mutex b then Blocked b
            else
              let (bids1, ok1) = diff_levels (tick_size b) (bids_json d) (bids b)
              in if \<not> ok1 then Returned (Failed, b\<lparr>bids := bids1\<rparr>)
                 else
                   let (asks1, ok2) = diff_levels (tick_size b) (asks_json d) (asks b)
                   in if \<not> ok2 then Returned (Failed, b\<lparr>bids := bids1, asks := asks1\<rparr>)
                      else (case print_orderbook
                                   (b\<lparr>bids := bids1, asks := asks1,
                                      last_update_id := update_id d\<rparr>) of
                              Blocked x \<Rightarrow> Blocked x
                            | Returned b' \<Rightarrow> Returned (Applied, b')))
         else (case fetch_api_snapshot fetched b of
                 Blocked x \<Rightarrow> Blocked x
               | Returned (r, b') \<Rightarrow> Returned (Refetch r, b')))"




text \<open>The print toggle of the command line.\<close>

definition enable_auto_print :: "BinanceOrderBook \<Rightarrow> BinanceOrderBook" where
  "enable_auto_print b = b\<lparr>auto_print_enabled := True\<rparr>"

definition disable_auto_print :: "BinanceOrderBook \<Rightarrow> BinanceOrderBook" where
  "disable_auto_print b = b\<lparr>auto_print_enabled := False\<rparr>"



definition best_bid_price :: "BinanceOrderBook \<Rightarrow> real" where
  "best_bid_price b = (if bids b \<noteq> [] then fst (last (bids b)) else 0)"

definition no_stale_bid :: "BinanceOrderBook \<Rightarrow> bool" where
  "no_stale_bid b \<longleftrightarrow>
     (best_bid_price b > 0 \<longrightarrow> (\<forall>(p, qs) \<in> set (bids b). \<not> p < 95 / 100 * best_bid_price b))"

section \<open>Depth-update parsing and fan-out (serialization.cpp, binance\_connector.cpp,
  main.cpp)\<close>

text \<open>
  Modelled from the spec: \<open>PriceLevel\<close> and \<open>OrderBookUpdate\<close> are declared in
  core/serialization.hpp, which is not among the sources. The spec's PriceLevel is a pair
  \<open>(price, quantity)\<close>; the update carries \<open>timestamp_ns\<close>, \<open>last_update_id\<close>, \<open>bids\<close>
  and \<open>asks\<close>, the members \<open>parse_orderbook_json\<close> fills.
\<close>

record PriceLevel =
  price :: real
  quantity :: real

record OrderBookUpdate =
  update_timestamp_ns :: "64 word"
  update_last_update_id :: "64 word"
  update_bids :: "PriceLevel list"
  update_asks :: "PriceLevel list"

text \<open>
  A decoded JSON value. The decoder (\<open>json::parse\<close>), \<open>std::stod\<close>, the conversion
  \<open>get<uint64_t>\<close> and the clock belong to libraries: the parser below takes the decoded
  value (\<open>None\<close> when decoding throws), and the two conversions and the clock reading as
  parameters, each conversion \<open>None\<close> where it throws.
\<close>

datatype json =
    JNull | JBool bool | JNumber real | JString string
  | JArray "json list" | JObject "(string \<times> json) list"

fun contains :: "json \<Rightarrow> string \<Rightarrow> bool" where
  "contains (JObject m) k = (map_of m k \<noteq> None)"
| "contains j k = False"

fun at_key :: "json \<Rightarrow> string \<Rightarrow> json" where
  "at_key (JObject m) k = (case map_of m k of Some v \<Rightarrow> v | None \<Rightarrow> JNull)"
| "at_key j k = JNull"

fun get_string :: "json \<Rightarrow> string option" where
  "get_string (JString s) = Some s"
| "get_string j = None"

fun is_array :: "json \<Rightarrow> bool" where
  "is_array (JArray xs) = True"
| "is_array j = False"

fun elements :: "json \<Rightarrow> json list" where
  "elements (JArray xs) = xs"
| "elements j = []"

text \<open>
  The loop over \<open>j["b"]\<close> or \<open>j["a"]\<close>: an element that is not an array of at least two
  entries is skipped; \<open>None\<close> is an exception (an entry that is not a string, or a string
  \<open>std::stod\<close> rejects); a level is pushed only when its quantity is above 0.
\<close>

fun parse_levels :: "(string \<Rightarrow> real option) \<Rightarrow> json list \<Rightarrow> PriceLevel list option" where
  "parse_levels stod [] = Some []"
| "parse_levels stod (JArray (p # q # others) # ls) =
     (case get_string p of
        None \<Rightarrow> None
      | Some ps \<Rightarrow>
          (case stod ps of
             None \<Rightarrow> None
           | Some pr \<Rightarrow>
               (case get_string q of
                  None \<Rightarrow> None
                | Some qs \<Rightarrow>
                    (case stod qs of
                       None \<Rightarrow> None
                     | Some qty \<Rightarrow>
                         (case parse_levels stod ls of
                            None \<Rightarrow> None
                          | Some rest \<Rightarrow>
                              Some (if qty > 0 then \<lparr>price = pr, quantity = qty\<rparr> # rest
                                    else rest))))))"
| "parse_levels stod (l # ls) = parse_levels stod ls"

definition get_uint64_or_0 :: "(json \<Rightarrow> 64 word option) \<Rightarrow> json \<Rightarrow> string \<Rightarrow> 64 word option" where
  "get_uint64_or_0 get_uint64 j k =
     (if contains j k \<and> at_key j k \<noteq> JNull then get_uint64 (at_key j k) else Some 0)"

definition parse_orderbook_json ::
  "(string \<Rightarrow> real option) \<Rightarrow> (json \<Rightarrow> 64 word option) \<Rightarrow> 64 word \<Rightarrow> json option \<Rightarrow>
   OrderBookUpdate option" where
  "parse_orderbook_json stod get_uint64 now parsed =
     (case parsed of
        None \<Rightarrow> None
      | Some j \<Rightarrow>
          if \<not> contains j ''e'' \<or> at_key j ''e'' \<noteq> JString ''depthUpdate'' then None
          else
            (case get_uint64_or_0 get_uint64 j ''E'' of
               None \<Rightarrow> None
             | Some event_time \<Rightarrow>
                 (case get_uint64_or_0 get_uint64 j ''u'' of
                    None \<Rightarrow> None
                  | Some last_id \<Rightarrow>
                      (case (if contains j ''b'' \<and> is_array (at_key j ''b'')
                             then parse_levels stod (elements (at_key j ''b'')) else Some []) of
                         None \<Rightarrow> None
                       | Some bs \<Rightarrow>
                           (case (if contains j ''a'' \<and> is_array (at_key j ''a'')
                                  then parse_levels stod (elements (at_key j ''a''))
                                  else Some []) of
                              None \<Rightarrow> None
                            | Some as \<Rightarrow>
                                Some \<lparr>update_timestamp_ns =
                                        (if event_time * 1000000 = 0 then now
                                         else event_time * 1000000),
                                      update_last_update_id = last_id,
                                      update_bids = bs, update_asks = as\<rparr>)))))"

text \<open>
  \<open>callback_ws\<close> pushes a parsed update to \<open>liquidity_queue\<close> and to \<open>iceberg_queue\<close>.
  The iceberg thread hands it to \<open>process_update\<close>, which calls \<open>detect_iceberg\<close> for
  every bid and then every ask. The liquidity thread turns the levels into
  \<open>OrderBookLevel\<close>s for \<open>onOrderBookUpdate\<close>.
\<close>

definition process_update_calls :: "OrderBookUpdate \<Rightarrow> (string \<times> real \<times> real \<times> bool) list" where
  "process_update_calls update =
     map (\<lambda>bid. (''BTCUSDT'', price bid, quantity bid, True)) (update_bids update) @
     map (\<lambda>ask. (''BTCUSDT'', price ask, quantity ask, False)) (update_asks update)"

definition process_update :: "OrderBookUpdate \<Rightarrow> book_state \<Rightarrow> IcebergEvent list \<times> book_state" where
  "process_update update bs =
     foldl (\<lambda>(evs, st) (symbol, p, q, is_bid).
              let (e, st') = detect_iceberg symbol p q is_bid st in (evs @ e, st'))
       ([], bs) (process_update_calls update)"

definition to_levels :: "PriceLevel list \<Rightarrow> OrderBookLevel list" where
  "to_levels ls = map (\<lambda>l. \<lparr>level_price = price l, volume = quantity l\<rparr>) ls"

definition liquidity_thread_update ::
  "OrderBookUpdate \<Rightarrow> LiquidityTracker \<Rightarrow> lt_event list \<times> LiquidityTracker" where
  "liquidity_thread_update update s =
     onOrderBookUpdate (update_timestamp_ns update) (to_levels (update_bids update))
       (to_levels (update_asks update)) s"

chapter \<open>Properties\<close>

section \<open>Iceberg detector\<close>

lemma level_at_set_level_same: "level_at (set_level bs s p st) s p = st"
  by (simp add: level_at_def set_level_def)

lemma level_at_set_level_other:
  "(s', p') \<noteq> (s, p) \<Longrightarrow> level_at (set_level bs s p st) s' p' = level_at bs s' p'"
  by (auto simp: level_at_def set_level_def split: option.splits)

text \<open>
  C3. One observation \<open>(price, qty)\<close> of a level whose stored state is \<open>st\<close>: when
  \<open>0 < qty < last_quantity st\<close> the counter is incremented, and if it thereby reaches 3 one
  detection for (symbol, price, side) is emitted and the counter is reset to 0; in every
  other case the counter is reset to 0 and nothing is emitted. In all cases
  \<open>last_quantity\<close> becomes \<open>qty\<close>, and no other level changes.
\<close>

theorem detect_iceberg_step:
  "detect_iceberg symbol pr qty is_bid bs = (evs, bs') \<Longrightarrow>
   last_quantity (level_at bs' symbol pr) = qty \<and>
   (if 0 < qty \<and> qty < last_quantity (level_at bs symbol pr)
    then (if iceberg_counter (level_at bs symbol pr) + 1 \<ge> 3
          then evs = [\<lparr>ev_symbol = symbol, ev_price = pr, ev_is_bid = is_bid\<rparr>]
               \<and> iceberg_counter (level_at bs' symbol pr) = 0
          else evs = [] \<and> iceberg_counter (level_at bs' symbol pr)
                 = iceberg_counter (level_at bs symbol pr) + 1)
    else evs = [] \<and> iceberg_counter (level_at bs' symbol pr) = 0) \<and>
   (\<forall>s p. (s, p) \<noteq> (symbol, pr) \<longrightarrow> level_at bs' s p = level_at bs s p)"
  by (auto simp: detect_iceberg_def Let_def emit_iceberg_event_def level_at_set_level_same
        level_at_set_level_other split: if_splits)

theorem detect_iceberg_step_witness:
  "detect_iceberg ''BTCUSDT'' 30000 3 False
     (set_level Map.empty ''BTCUSDT'' 30000 \<lparr>last_quantity = 4, iceberg_counter = 2\<rparr>) =
     ([\<lparr>ev_symbol = ''BTCUSDT'', ev_price = 30000, ev_is_bid = False\<rparr>],
      set_level (set_level Map.empty ''BTCUSDT'' 30000 \<lparr>last_quantity = 4, iceberg_counter = 2\<rparr>)
        ''BTCUSDT'' 30000 \<lparr>last_quantity = 3, iceberg_counter = 0\<rparr>) \<and>
   last_quantity (level_at
     (set_level (set_level Map.empty ''BTCUSDT'' 30000 \<lparr>last_quantity = 4, iceberg_counter = 2\<rparr>)
        ''BTCUSDT'' 30000 \<lparr>last_quantity = 3, iceberg_counter = 0\<rparr>) ''BTCUSDT'' 30000) = 3"
proof -
  have h: "detect_iceberg ''BTCUSDT'' 30000 3 False
     (set_level Map.empty ''BTCUSDT'' 30000 \<lparr>last_quantity = 4, iceberg_counter = 2\<rparr>) =
     ([\<lparr>ev_symbol = ''BTCUSDT'', ev_price = 30000, ev_is_bid = False\<rparr>],
      set_level (set_level Map.empty ''BTCUSDT'' 30000 \<lparr>last_quantity = 4, iceberg_counter = 2\<rparr>)
        ''BTCUSDT'' 30000 \<lparr>last_quantity = 3, iceberg_counter = 0\<rparr>)"
    by (simp add: detect_iceberg_def Let_def emit_iceberg_event_def level_at_set_level_same)
  from detect_iceberg_step [OF h] h show ?thesis by simp
qed

text \<open>
  Along any run from the empty state every counter stays in \<open>{0, 1, 2}\<close>, so the
  \<open>int\<close> increment of the source never overflows and the test \<open>\<ge> 3\<close> fires exactly
  when the counter reaches 3.
\<close>

lemma counters_small_empty: "counters_small IcebergDetector_new"
  by (simp add: IcebergDetector_new_def counters_small_def level_at_def
        IcebergLevelState_default_def)

lemma counters_small_detect:
  assumes "counters_small bs" "detect_iceberg symbol pr qty is_bid bs = (evs, bs')"
  shows "counters_small bs'"
  unfolding counters_small_def
proof (intro allI)
  fix s p
  show "0 \<le> iceberg_counter (level_at bs' s p) \<and> iceberg_counter (level_at bs' s p) \<le> 2"
  proof (cases "(s, p) = (symbol, pr)")
    case True
    then show ?thesis
      using assms
      by (auto simp: counters_small_def detect_iceberg_def Let_def level_at_set_level_same
            split: if_splits)
  next
    case False
    then show ?thesis
      using assms
      by (auto simp: counters_small_def detect_iceberg_def Let_def level_at_set_level_other
            split: if_splits)
  qed
qed

text \<open>
  C4, as stated: the observations \<open>[5, 3, 5, 2, 5, 1]\<close> at one ask level, from no prior
  state, would emit exactly one event. They emit none: each return to 5 takes the
  \<open>else\<close> branch and resets the counter.
\<close>

theorem scenario_c_emits_nothing:
  "length (concat (fst (observe_level ''BTCUSDT'' 30000 False [5, 3, 5, 2, 5, 1] IcebergDetector_new))) \<noteq> 1"
  by (simp add: IcebergDetector_new_def detect_iceberg_def Let_def level_at_def set_level_def
        IcebergLevelState_default_def)

text \<open>
  C4, amended: the observations \<open>[5, 3, 5, 2, 5, 1]\<close> emit no event at any of the six
  observations and leave the counter at 1; an event needs three decreases in a row with
  no increase between them, as in \<open>[5, 4, 3, 2]\<close>, which emits exactly one event, at the
  observation of quantity 2, and leaves the counter at 0.
\<close>

theorem scenario_c_consecutive:
  "map length (fst (observe_level ''BTCUSDT'' 30000 False [5, 3, 5, 2, 5, 1] IcebergDetector_new)) =
     [0, 0, 0, 0, 0, 0] \<and>
   level_at (snd (observe_level ''BTCUSDT'' 30000 False [5, 3, 5, 2, 5, 1] IcebergDetector_new))
     ''BTCUSDT'' 30000 = \<lparr>last_quantity = 1, iceberg_counter = 1\<rparr> \<and>
   map length (fst (observe_level ''BTCUSDT'' 30000 False [5, 4, 3, 2] IcebergDetector_new)) =
     [0, 0, 0, 1] \<and>
   concat (fst (observe_level ''BTCUSDT'' 30000 False [5, 4, 3, 2] IcebergDetector_new)) =
     [\<lparr>ev_symbol = ''BTCUSDT'', ev_price = 30000, ev_is_bid = False\<rparr>] \<and>
   level_at (snd (observe_level ''BTCUSDT'' 30000 False [5, 4, 3, 2] IcebergDetector_new))
     ''BTCUSDT'' 30000 = \<lparr>last_quantity = 2, iceberg_counter = 0\<rparr>"
  by (simp add: IcebergDetector_new_def detect_iceberg_def Let_def level_at_def set_level_def
        IcebergLevelState_default_def emit_iceberg_event_def)

section \<open>Liquidity tracker: trade buckets\<close>


lemma closures_Nil: "closures side [] = 0"
  by (simp add: closures_def)












section \<open>Liquidity tracker: cancellation detection (dual mode)\<close>







section \<open>Byte ring\<close>

subsection \<open>The free space computed by \<open>MMapBuffer::write\<close>\<close>

lemma unat_space_sum:
  fixes h t c :: "64 word"
  assumes "h < c" "t < c" "c \<le> 2 ^ 63"
  shows "unat (t + c - h - 1) = unat t + unat c - unat h - 1"
proof -
  have hc: "unat h < unat c" and tc: "unat t < unat c"
    using assms by (simp_all add: word_less_nat_alt)
  have c63: "unat c \<le> 2 ^ 63"
    using assms(3) by (simp add: word_le_nat_alt)
  have 1: "unat (t + c) = unat t + unat c"
    using tc c63 by (simp add: unat_add_lem [THEN iffD1])
  have "h \<le> t + c"
    using 1 hc by (simp add: word_le_nat_alt)
  then have 2: "unat (t + c - h) = unat t + unat c - unat h"
    using 1 by (simp add: unat_sub)
  have "1 \<le> t + c - h"
    using 2 hc by (simp add: word_le_nat_alt)
  then show ?thesis
    using 2 by (simp add: unat_sub)
qed

lemma mod_space_int:
  fixes H T C :: int
  assumes "0 \<le> H" "H < C" "0 \<le> T" "T < C"
  shows "(T + C - H - 1) mod C = C - 1 - ((H - T) mod C)"
proof (cases "T \<le> H")
  case True
  then have "(H - T) mod C = H - T" using assms by simp
  moreover have "(T + C - H - 1) mod C = T + C - H - 1" using True assms by simp
  ultimately show ?thesis by simp
next
  case False
  have "(H - T) mod C = (H - T + C) mod C" by simp
  also have "\<dots> = H - T + C" using False assms by (intro mod_pos_pos_trivial) simp_all
  finally have "(H - T) mod C = H - T + C" .
  moreover have "(T + C - H - 1) mod C = (T - H - 1) mod C"
    by (metis add.commute add_diff_eq diff_add_eq mod_add_self2)
  moreover have "(T - H - 1) mod C = T - H - 1" using False assms by simp
  ultimately show ?thesis by simp
qed

lemma space_formula:
  fixes h t c :: "64 word"
  assumes "h < c" "t < c" "c \<le> 2 ^ 63"
  shows "uint ((t + c - h - 1) mod c) = uint c - 1 - ((uint h - uint t) mod uint c)"
proof -
  have hc: "unat h < unat c" and tc: "unat t < unat c"
    using assms by (simp_all add: word_less_nat_alt)
  have "uint ((t + c - h - 1) mod c) = int (unat ((t + c - h - 1) mod c))" by simp
  also have "\<dots> = int ((unat t + unat c - unat h - 1) mod unat c)"
    by (simp add: unat_mod unat_space_sum [OF assms])
  also have "\<dots> = (int (unat t) + int (unat c) - int (unat h) - 1) mod int (unat c)"
  proof -
    have "int (unat t + unat c - unat h - 1) = int (unat t) + int (unat c) - int (unat h) - 1"
      using hc tc by linarith
    then show ?thesis by (simp only: zmod_int)
  qed
  also have "\<dots> = int (unat c) - 1 - ((int (unat h) - int (unat t)) mod int (unat c))"
    using assms by (intro mod_space_int) (simp_all add: word_less_def)
  finally show ?thesis by simp
qed

subsection \<open>The copies made by \<open>MMapBuffer::write\<close>\<close>

lemma memcpy_length:
  "off + n \<le> length dst \<Longrightarrow> n \<le> length src \<Longrightarrow> length (memcpy dst off src n) = length dst"
  by (simp add: memcpy_def)

lemma memcpy_nth:
  assumes "off + n \<le> length dst" "n \<le> length src" "i < length dst"
  shows "memcpy dst off src n ! i = (if off \<le> i \<and> i < off + n then src ! (i - off) else dst ! i)"
  using assms by (auto simp: memcpy_def nth_append min_def)

lemma write_to_write_le:
  assumes "ring_ok b"
  shows "unat (write_to_write len b) \<le> unat len"
    and "unat (write_to_write len b) < unat (capacity b)"
proof -
  have c0: "capacity b \<noteq> 0" using assms by (auto simp: ring_ok_def)
  show "unat (write_to_write len b) \<le> unat len"
    by (simp add: write_to_write_def Let_def min_def word_le_nat_alt)
  have "unat ((tail b + capacity b - head b - 1) mod capacity b) < unat (capacity b)"
    using c0 by (simp add: unat_mod unat_gt_0)
  then show "unat (write_to_write len b) < unat (capacity b)"
    by (simp add: write_to_write_def Let_def min_def word_le_nat_alt)
qed

lemma write_memcpys_nat:
  assumes "ring_ok b"
  shows "write_memcpys len b =
     (let H = unat (head b); C = unat (capacity b); N = unat (write_to_write len b);
          F = min N (C - H)
      in (H, 0, F) # (if F < N then [(0, F, N - F)] else []))"
proof -
  have hc: "head b < capacity b" using assms by (simp add: ring_ok_def)
  then have hm: "head b mod capacity b = head b" by (simp add: word_mod_less_divisor mod_word_less)
  have le: "head b \<le> capacity b" using hc by simp
  have cu: "unat (capacity b - head b) = unat (capacity b) - unat (head b)"
    using le by (simp add: unat_sub)
  let ?n = "write_to_write len b"
  let ?f = "min ?n (capacity b - head b)"
  have fu: "unat ?f = min (unat ?n) (unat (capacity b) - unat (head b))"
    using cu by (simp add: min_def word_le_nat_alt)
  have fle: "?f \<le> ?n" by simp
  have su: "unat (?n - ?f) = unat ?n - unat ?f"
    using fle by (simp add: unat_sub)
  have pos: "(?n - ?f > 0) = (unat ?f < unat ?n)"
    using su by (simp add: word_less_nat_alt)
  show ?thesis
    unfolding write_memcpys_def Let_def hm using fu su pos by simp
qed

lemma write_buffer_nat:
  assumes ok: "ring_ok b" and ro: "\<not> read_only b"
  shows "\<exists>b'. MMapBuffer_write data len b = Some (write_to_write len b, b') \<and>
     head b' = (head b + write_to_write len b) mod capacity b \<and> tail b' = tail b \<and>
     capacity b' = capacity b \<and> read_only b' = read_only b \<and>
     buffer b' =
       (let H = unat (head b); C = unat (capacity b); N = unat (write_to_write len b);
            F = min N (C - H);
            buf1 = memcpy (buffer b) H data F
        in if F < N then memcpy buf1 0 (drop F data) (N - F) else buf1)"
proof -
  have c0: "capacity b \<noteq> 0" using ok by (auto simp: ring_ok_def)
  show ?thesis
    using ro c0
    by (simp add: MMapBuffer_write_def write_memcpys_nat [OF ok] Let_def)
qed

lemma write_copies_bytes:
  assumes ok: "ring_ok b" and len: "unat len = length data" and i: "i < unat (write_to_write len b)"
  defines "H \<equiv> unat (head b)" and "C \<equiv> unat (capacity b)" and "N \<equiv> unat (write_to_write len b)"
  defines "F \<equiv> min N (C - H)"
  defines "buf1 \<equiv> memcpy (buffer b) H data F"
  shows "(if F < N then memcpy buf1 0 (drop F data) (N - F) else buf1) ! ((H + i) mod C) = data ! i"
proof -
  have HC: "H < C" using ok by (simp add: ring_ok_def H_def C_def word_less_nat_alt)
  have NC: "N < C" and NL: "N \<le> length data"
    using write_to_write_le [OF ok, of len] len by (simp_all add: N_def C_def)
  have L: "length (buffer b) = C" using ok by (simp add: ring_ok_def C_def)
  have iN: "i < N" using i by (simp add: N_def)
  have F1: "H + F \<le> length (buffer b)" "F \<le> length data"
    using HC NL L by (simp_all add: F_def)
  have L1: "length buf1 = C"
    using memcpy_length [OF F1] L by (simp add: buf1_def)
  show ?thesis
  proof (cases "F < N")
    case False
    then have FN: "F = N" and fit: "N \<le> C - H" by (simp_all add: F_def min_def split: if_splits)
    have pos: "(H + i) mod C = H + i" using iN fit HC by simp
    have "buf1 ! (H + i) = data ! i"
      unfolding buf1_def using memcpy_nth [OF F1, of "H + i"] iN fit HC L FN by simp
    with False pos show ?thesis by simp
  next
    case True
    then have FC: "F = C - H" by (simp add: F_def min_def split: if_splits)
    have F2: "0 + (N - F) \<le> length buf1" "N - F \<le> length (drop F data)"
      using NC NL L1 by simp_all
    have NF: "N - F < H" using NC FC HC True by linarith
    show ?thesis
    proof (cases "i < F")
      case True
      then have pos: "(H + i) mod C = H + i" using FC HC by simp
      have lt: "H + i < length buf1" using True FC HC L1 by simp
      have "memcpy buf1 0 (drop F data) (N - F) ! (H + i) = buf1 ! (H + i)"
        using memcpy_nth [OF F2 lt] NF by simp
      also have "\<dots> = data ! i"
        unfolding buf1_def using memcpy_nth [OF F1, of "H + i"] True lt L1 L by simp
      finally show ?thesis using \<open>F < N\<close> pos by simp
    next
      case False
      then have ge: "C \<le> H + i" using FC HC by simp
      have "H + i < C + C" using iN NC HC by simp
      then have pos: "(H + i) mod C = H + i - C"
        using ge by (metis le_add_diff_inverse less_diff_conv2 mod_add_self1 mod_less add.commute)
      have idx: "H + i - C = i - F" using FC HC False by simp
      have lt: "i - F < length buf1" using iN NC L1 by simp
      have sub: "i - F < N - F" using iN False by linarith
      have "memcpy buf1 0 (drop F data) (N - F) ! (i - F) = drop F data ! (i - F)"
        using memcpy_nth [OF F2 lt] sub by simp
      also have "\<dots> = data ! i" using False NL iN by simp
      finally show ?thesis using \<open>F < N\<close> pos idx by simp
    qed
  qed
qed

lemma ring_ok_new: "0 < cap \<Longrightarrow> cap \<le> 2 ^ 63 \<Longrightarrow> ring_ok (MMapBuffer_new cap ro mem)"
  by (simp add: ring_ok_def MMapBuffer_new_def)

text \<open>
  C5, as stated: every call of \<open>write\<close> accepts
  \<open>min (len, C - 1 - ((head - tail) mod C))\<close> bytes. A ring in read-only mode accepts
  none, whatever its free space: with capacity 8, both indices 0 and three bytes offered, the
  formula gives 3 and the call returns 0.
\<close>

theorem read_only_ring_accepts_zero:
  "MMapBuffer_write [1, 2, 3] 3
     \<lparr>buffer = [0, 0, 0, 0, 0, 0, 0, 0], capacity = 8, head = 0, tail = 0, read_only = True\<rparr> =
     Some (0, \<lparr>buffer = [0, 0, 0, 0, 0, 0, 0, 0], capacity = 8, head = 0, tail = 0,
               read_only = True\<rparr>) \<and>
   min (uint (3 :: 64 word)) (uint (8 :: 64 word) - 1 - ((uint (0 :: 64 word) - uint (0 :: 64 word)) mod uint (8 :: 64 word))) = 3"
  by (simp add: MMapBuffer_write_def)

text \<open>
  C5, amended: on a ring that is not read-only, whose indices are below its capacity \<open>C\<close>
  (at most \<open>2^63\<close>), \<open>write\<close> of \<open>len\<close> bytes returns
  \<open>n = min (len, C - 1 - ((head - tail) mod C))\<close>, makes at most two \<open>memcpy\<close> calls whose
  sizes add up to \<open>n\<close>, leaves \<open>tail\<close> alone, advances \<open>head\<close> to \<open>(head + n) mod C\<close>, and
  byte \<open>i < n\<close> of the data ends at ring position \<open>(head + i) mod C\<close>.
\<close>

theorem write_accepts_min:
  assumes "\<not> read_only b" and "ring_ok b" and "unat len = length data"
  shows "\<exists>n b'. MMapBuffer_write data len b = Some (n, b') \<and>
     uint n = min (uint len)
       (uint (capacity b) - 1 - ((uint (head b) - uint (tail b)) mod uint (capacity b))) \<and>
     length (write_memcpys len b) \<le> 2 \<and>
     sum_list (map (\<lambda>(off, src_off, k). k) (write_memcpys len b)) = unat n \<and>
     head b' = (head b + n) mod capacity b \<and> tail b' = tail b \<and>
     (\<forall>i < unat n. buffer b' ! ((unat (head b) + i) mod unat (capacity b)) = data ! i)"
proof -
  let ?n = "write_to_write len b"
  from write_buffer_nat [OF assms(2) assms(1), of data len]
  obtain b' where w: "MMapBuffer_write data len b = Some (?n, b')"
    and hd: "head b' = (head b + ?n) mod capacity b" and tl: "tail b' = tail b"
    and buf: "buffer b' =
       (let H = unat (head b); C = unat (capacity b); N = unat ?n;
            F = min N (C - H);
            buf1 = memcpy (buffer b) H data F
        in if F < N then memcpy buf1 0 (drop F data) (N - F) else buf1)"
    by blast
  have ok: "head b < capacity b" "tail b < capacity b" "capacity b \<le> 2 ^ 63"
    using assms(2) by (simp_all add: ring_ok_def)
  have cnt: "uint ?n = min (uint len)
       (uint (capacity b) - 1 - ((uint (head b) - uint (tail b)) mod uint (capacity b)))"
    by (simp add: write_to_write_def Let_def space_formula [OF ok, symmetric] min_def word_le_def)
  have two: "length (write_memcpys len b) \<le> 2"
    by (simp add: write_memcpys_def Let_def)
  have total: "sum_list (map (\<lambda>(off, src_off, k). k) (write_memcpys len b)) = unat ?n"
    by (simp add: write_memcpys_nat [OF assms(2)] Let_def)
  have bytes: "\<forall>i < unat ?n. buffer b' ! ((unat (head b) + i) mod unat (capacity b)) = data ! i"
    using write_copies_bytes [OF assms(2) assms(3)] by (simp add: buf Let_def)
  from w cnt two total hd tl bytes show ?thesis by blast
qed

theorem write_accepts_min_witness:
  "\<not> read_only \<lparr>buffer = [0, 0, 0, 0, 0, 0, 0, 0], capacity = 8, head = 6, tail = 5,
                   read_only = False\<rparr> \<and>
   ring_ok \<lparr>buffer = [0, 0, 0, 0, 0, 0, 0, 0], capacity = 8, head = 6, tail = 5,
            read_only = False\<rparr> \<and>
   unat (5 :: 64 word) = length [1, 2, 3, 4, 5 :: 8 word] \<and>
   (\<exists>n b'. MMapBuffer_write [1, 2, 3, 4, 5] 5
        \<lparr>buffer = [0, 0, 0, 0, 0, 0, 0, 0], capacity = 8, head = 6, tail = 5,
         read_only = False\<rparr> = Some (n, b') \<and>
      uint n = min (uint (5 :: 64 word)) (uint (8 :: 64 word) - 1 -
                 ((uint (6 :: 64 word) - uint (5 :: 64 word)) mod uint (8 :: 64 word))) \<and>
      head b' = (6 + n) mod 8 \<and> tail b' = 5)"
proof -
  let ?b = "\<lparr>buffer = [0, 0, 0, 0, 0, 0, 0, 0], capacity = 8, head = 6, tail = 5,
            read_only = False\<rparr> :: MMapBuffer"
  have h1: "\<not> read_only ?b" by simp
  have h2: "ring_ok ?b" by (simp add: ring_ok_def)
  have h3: "unat (5 :: 64 word) = length [1, 2, 3, 4, 5 :: 8 word]" by simp
  from write_accepts_min [OF h1 h2 h3] h1 h2 h3 show ?thesis by auto
qed

subsection \<open>Read-only rings\<close>

lemma write_keeps_read_only:
  "MMapBuffer_write data len b = Some (n, b') \<Longrightarrow> read_only b' = read_only b"
  by (auto simp: MMapBuffer_write_def Let_def split: if_splits)

lemma read_keeps_read_only:
  "MMapBuffer_read max_len b = Some (out, n, b') \<Longrightarrow> read_only b' = read_only b"
  by (auto simp: MMapBuffer_read_def Let_def split: if_splits)

lemma ring_calls_keep_read_only:
  "ring_calls cs b = Some b' \<Longrightarrow> read_only b' = read_only b"
proof (induction cs arbitrary: b)
  case Nil
  then show ?case by simp
next
  case (Cons c cs)
  show ?case
  proof (cases c)
    case (Write data len)
    with Cons.prems obtain n b1 where w: "MMapBuffer_write data len b = Some (n, b1)"
      and r: "ring_calls cs b1 = Some b'"
      by (auto split: option.splits)
    from Cons.IH [OF r] write_keeps_read_only [OF w] show ?thesis by simp
  next
    case (Read max_len)
    with Cons.prems obtain out n b1 where w: "MMapBuffer_read max_len b = Some (out, n, b1)"
      and r: "ring_calls cs b1 = Some b'"
      by (auto split: option.splits)
    from Cons.IH [OF r] read_keeps_read_only [OF w] show ?thesis by simp
  qed
qed

text \<open>
  C10. A ring constructed with \<open>read_only = true\<close> stays read-only through any calls of
  \<open>write\<close> and \<open>read\<close>, and every \<open>write\<close> on it returns 0 and leaves the whole ring
  (indices and bytes) as it was.
\<close>

theorem write_read_only:
  "ring_calls cs (MMapBuffer_new cap True mem) = Some b \<Longrightarrow>
   MMapBuffer_write data len b = Some (0, b)"
proof -
  assume "ring_calls cs (MMapBuffer_new cap True mem) = Some b"
  then have "read_only b = read_only (MMapBuffer_new cap True mem)"
    by (rule ring_calls_keep_read_only)
  then have "read_only b" by (simp add: MMapBuffer_new_def)
  then show ?thesis by (simp add: MMapBuffer_write_def)
qed

theorem write_read_only_witness:
  "ring_calls [Write [1, 2] 2, Read 1] (MMapBuffer_new 4 True (\<lambda>_. 7)) =
     Some \<lparr>buffer = [7, 7, 7, 7], capacity = 4, head = 0, tail = 0, read_only = True\<rparr> \<and>
   MMapBuffer_write [9, 9, 9] 3
     \<lparr>buffer = [7, 7, 7, 7], capacity = 4, head = 0, tail = 0, read_only = True\<rparr> =
     Some (0, \<lparr>buffer = [7, 7, 7, 7], capacity = 4, head = 0, tail = 0, read_only = True\<rparr>)"
proof -
  have h: "ring_calls [Write [1, 2] 2, Read 1] (MMapBuffer_new 4 True (\<lambda>_. 7)) =
    Some \<lparr>buffer = [7, 7, 7, 7], capacity = 4, head = 0, tail = 0, read_only = True\<rparr>"
    by (simp add: MMapBuffer_new_def MMapBuffer_write_def MMapBuffer_read_def Let_def upt_rec)
  from write_read_only [OF h] h show ?thesis by simp
qed

section \<open>Depth-update parsing\<close>

lemma parse_levels_positive:
  "parse_levels stod ls = Some out \<Longrightarrow> \<forall>l \<in> set out. quantity l > 0"
proof (induction stod ls arbitrary: out rule: parse_levels.induct)
  case (1 stod)
  then show ?case by simp
next
  case (2 stod p q others ls)
  from "2.prems" obtain ps pr qs qty rest where
    "get_string p = Some ps" "stod ps = Some pr" "get_string q = Some qs" "stod qs = Some qty"
    and r: "parse_levels stod ls = Some rest"
    and out: "out = (if qty > 0 then \<lparr>price = pr, quantity = qty\<rparr> # rest else rest)"
    by (auto split: option.splits)
  from "2.IH" [OF \<open>get_string p = Some ps\<close> \<open>stod ps = Some pr\<close> \<open>get_string q = Some qs\<close>
      \<open>stod qs = Some qty\<close> r]
  have "\<forall>l \<in> set rest. quantity l > 0" .
  then show ?case by (simp add: out)
qed (simp_all)

text \<open>
  C9. Every update \<open>parse_orderbook_json\<close> returns holds only levels of quantity above 0,
  on both sides. So every call \<open>process_update\<close> makes to \<open>detect_iceberg\<close> for it carries
  a quantity above 0, and every level the liquidity thread passes to \<open>onOrderBookUpdate\<close>
  has a volume above 0: the zero-quantity delete marker of the wire reaches neither.
\<close>

theorem parsed_update_has_no_deletion:
  assumes "parse_orderbook_json stod get_uint64 now parsed = Some update"
  shows "(\<forall>l \<in> set (update_bids update) \<union> set (update_asks update). quantity l > 0) \<and>
         (\<forall>(symbol, p, q, is_bid) \<in> set (process_update_calls update). q > 0) \<and>
         (\<forall>l \<in> set (to_levels (update_bids update)) \<union> set (to_levels (update_asks update)).
            volume l > 0)"
proof -
  from assms obtain j where "parsed = Some j" and
    bs: "(if contains j ''b'' \<and> is_array (at_key j ''b'')
          then parse_levels stod (elements (at_key j ''b'')) else Some []) =
         Some (update_bids update)" and
    as: "(if contains j ''a'' \<and> is_array (at_key j ''a'')
          then parse_levels stod (elements (at_key j ''a'')) else Some []) =
         Some (update_asks update)"
    by (auto simp: parse_orderbook_json_def split: option.splits if_splits)
  have b: "\<forall>l \<in> set (update_bids update). quantity l > 0"
    using bs parse_levels_positive [of stod _ "update_bids update"]
    by (auto split: if_splits)
  have a: "\<forall>l \<in> set (update_asks update). quantity l > 0"
    using as parse_levels_positive [of stod _ "update_asks update"]
    by (auto split: if_splits)
  from a b show ?thesis
    by (auto simp: process_update_calls_def to_levels_def)
qed

theorem parsed_update_has_no_deletion_witness:
  "parse_orderbook_json
     (\<lambda>s. if s = ''10.00'' then Some 10 else if s = ''9.99'' then Some (999 / 100)
           else if s = ''0'' then Some 0 else if s = ''2'' then Some 2 else None)
     (\<lambda>j. case j of JNumber n \<Rightarrow> Some (word_of_int \<lfloor>n\<rfloor>) | _ \<Rightarrow> None)
     5
     (Some (JObject
        [(''e'', JString ''depthUpdate''), (''E'', JNumber 7), (''u'', JNumber 101),
         (''b'', JArray [JArray [JString ''10.00'', JString ''2''],
                         JArray [JString ''9.99'', JString ''0'']]),
         (''a'', JArray [])])) =
     Some \<lparr>update_timestamp_ns = 7000000, update_last_update_id = 101,
           update_bids = [\<lparr>price = 10, quantity = 2\<rparr>], update_asks = []\<rparr> \<and>
   process_update_calls
     \<lparr>update_timestamp_ns = 7000000, update_last_update_id = 101,
      update_bids = [\<lparr>price = 10, quantity = 2\<rparr>], update_asks = []\<rparr> =
     [(''BTCUSDT'', 10, 2, True)]"
proof -
  have h: "parse_orderbook_json
     (\<lambda>s. if s = ''10.00'' then Some 10 else if s = ''9.99'' then Some (999 / 100)
           else if s = ''0'' then Some 0 else if s = ''2'' then Some 2 else None)
     (\<lambda>j. case j of JNumber n \<Rightarrow> Some (word_of_int \<lfloor>n\<rfloor>) | _ \<Rightarrow> None)
     5
     (Some (JObject
        [(''e'', JString ''depthUpdate''), (''E'', JNumber 7), (''u'', JNumber 101),
         (''b'', JArray [JArray [JString ''10.00'', JString ''2''],
                         JArray [JString ''9.99'', JString ''0'']]),
         (''a'', JArray [])])) =
     Some \<lparr>update_timestamp_ns = 7000000, update_last_update_id = 101,
           update_bids = [\<lparr>price = 10, quantity = 2\<rparr>], update_asks = []\<rparr>"
    by (simp add: parse_orderbook_json_def get_uint64_or_0_def)
  from parsed_update_has_no_deletion [OF h] h show ?thesis
    by (simp add: process_update_calls_def)
qed

section \<open>Order book keeper\<close>

lemma calculate_all_metrics_keeps:
  "calculate_all_metrics b = Returned b' \<Longrightarrow>
   bids b' = bids b \<and> asks b' = asks b \<and> last_update_id b' = last_update_id b \<and>
   auto_print_enabled b' = auto_print_enabled b \<and> tick_size b' = tick_size b \<and>
   orderbook_mutex b' = orderbook_mutex b"
  by (auto simp: calculate_all_metrics_def Let_def split: if_splits)

lemma print_orderbook_Returned:
  "print_orderbook b = Returned b' \<Longrightarrow>
   \<not> orderbook_mutex b \<and>
   bids b' = (if auto_print_enabled b then sweep_bids (bids b) else bids b) \<and>
   asks b' = asks b \<and> last_update_id b' = last_update_id b \<and>
   auto_print_enabled b' = auto_print_enabled b \<and> tick_size b' = tick_size b \<and>
   orderbook_mutex b' = orderbook_mutex b"
  by (auto simp: print_orderbook_def calculate_all_metrics_def Let_def
        split: outcome.splits if_splits)

lemma print_orderbook_free:
  "\<not> orderbook_mutex b \<Longrightarrow> \<exists>b'. print_orderbook b = Returned b'"
  by (simp add: print_orderbook_def calculate_all_metrics_def Let_def)


lemma process_ws_update_Applied:
  assumes "process_ws_update fetched d b = Returned (Applied, b')"
  shows "last_update_id b < update_id d \<and> first_update_id d \<le> last_update_id b + 1 \<and>
         last_update_id b' = update_id d \<and> auto_print_enabled b' = auto_print_enabled b \<and>
         (\<exists>bs. bids b' = (if auto_print_enabled b then sweep_bids bs else bs))"
proof -
  have old: "\<not> update_id d \<le> last_update_id b"
    using assms by (auto simp: process_ws_update_def Let_def)
  have br: "first_update_id d \<le> last_update_id b + 1"
    using assms old
    by (auto simp: process_ws_update_def Let_def fetch_api_snapshot_def
          split: if_splits outcome.splits prod.splits)
  obtain bids1 ok1 where l1: "diff_levels (tick_size b) (bids_json d) (bids b) = (bids1, ok1)"
    by (cases "diff_levels (tick_size b) (bids_json d) (bids b)")
  obtain asks1 ok2 where l2: "diff_levels (tick_size b) (asks_json d) (asks b) = (asks1, ok2)"
    by (cases "diff_levels (tick_size b) (asks_json d) (asks b)")
  have pr: "print_orderbook (b\<lparr>bids := bids1, asks := asks1, last_update_id := update_id d\<rparr>)
      = Returned b'"
    using assms old br l1 l2
    by (auto simp: process_ws_update_def Let_def split: if_splits outcome.splits)
  from print_orderbook_Returned [OF pr] old br show ?thesis by auto
qed

lemma sweep_bids_last:
  assumes "bs \<noteq> []" "0 < fst (last bs)"
  shows "sweep_bids bs \<noteq> [] \<and> fst (last (sweep_bids bs)) = fst (last bs)"
proof -
  let ?P = "\<lambda>(p, qs :: real \<times> string). \<not> p < fst (last bs) * (95 / 100)"
  have keep: "?P (last bs)"
    using assms(2) by (cases "last bs") simp
  obtain xs x where bs: "bs = xs @ [x]"
    using assms(1) by (metis append_butlast_last_id)
  have "filter ?P bs = filter ?P xs @ [x]"
    using keep bs by simp
  then show ?thesis
    using assms by (simp add: sweep_bids_def bs)
qed

lemma sweep_bids_no_stale:
  assumes "bids b = sweep_bids bs"
  shows "no_stale_bid b"
proof (cases "bs \<noteq> [] \<and> 0 < fst (last bs)")
  case True
  then have l: "bids b \<noteq> []" "fst (last (bids b)) = fst (last bs)"
    using sweep_bids_last [of bs] assms by simp_all
  have "bids b = filter (\<lambda>(p, qs). \<not> p < fst (last bs) * (95 / 100)) bs"
    using True assms by (simp add: sweep_bids_def)
  then show ?thesis
    using l by (auto simp: no_stale_bid_def best_bid_price_def)
next
  case False
  then have "bids b = bs" using assms by (auto simp: sweep_bids_def)
  then show ?thesis
    using False by (auto simp: no_stale_bid_def best_bid_price_def)
qed

lemma process_api_snapshot_Applied:
  assumes "process_api_snapshot snap b = Returned (Applied, b')"
  shows "last_update_id b' = lastUpdateId snap \<and> auto_print_enabled b' = auto_print_enabled b \<and>
         (\<exists>bs. bids b' = (if auto_print_enabled b then sweep_bids bs else bs))"
proof -
  obtain bids1 ok1 where l1: "snapshot_levels (tick_size b) (snapshot_bids snap) [] = (bids1, ok1)"
    by (cases "snapshot_levels (tick_size b) (snapshot_bids snap) []")
  obtain asks1 ok2 where l2: "snapshot_levels (tick_size b) (snapshot_asks snap) [] = (asks1, ok2)"
    by (cases "snapshot_levels (tick_size b) (snapshot_asks snap) []")
  have pr: "print_orderbook (b\<lparr>last_update_id := lastUpdateId snap, bids := bids1, asks := asks1\<rparr>)
      = Returned b'"
    using assms l1 l2
    by (auto simp: process_api_snapshot_def Let_def split: if_splits outcome.splits)
  from print_orderbook_Returned [OF pr] show ?thesis by auto
qed

subsection \<open>Sequence numbers of applied diffs\<close>

text \<open>
  C1, as stated: two diffs applied one after the other satisfy
  \<open>d2.first_update_id = d1.last_update_id + 1\<close>, and a diff that does not is not applied
  and triggers a re-sync. After a snapshot with \<open>lastUpdateId = 100\<close>, the diff
  \<open>U = 101, u = 105\<close> and then the overlapping diff \<open>U = 103, u = 110\<close> are both applied,
  with no snapshot request, although \<open>103 \<noteq> 106\<close>.
\<close>

theorem overlapping_diff_applied:
  "process_api_snapshot
     \<lparr>lastUpdateId = 100, snapshot_bids = [(Some 10, Some 1)],
      snapshot_asks = [(Some 11, Some 1)]\<rparr> BinanceOrderBook_new =
     Returned (Applied,
       \<lparr>bids = [(10, 1, ''API'')], asks = [(11, 1, ''API'')], tick_size = 1 / 100,
        last_update_id = 100, auto_print_enabled = True, orderbook_mutex = False,
        best_bid = 10, best_ask = 11, spread = 1\<rparr>) \<and>
   process_ws_update None
     \<lparr>first_update_id = 101, update_id = 105, bids_json = [(Some 10, Some 2)], asks_json = []\<rparr>
     \<lparr>bids = [(10, 1, ''API'')], asks = [(11, 1, ''API'')], tick_size = 1 / 100,
      last_update_id = 100, auto_print_enabled = True, orderbook_mutex = False,
      best_bid = 10, best_ask = 11, spread = 1\<rparr> =
     Returned (Applied,
       \<lparr>bids = [(10, 2, ''WS'')], asks = [(11, 1, ''API'')], tick_size = 1 / 100,
        last_update_id = 105, auto_print_enabled = True, orderbook_mutex = False,
        best_bid = 10, best_ask = 11, spread = 1\<rparr>) \<and>
   process_ws_update None
     \<lparr>first_update_id = 103, update_id = 110, bids_json = [(Some 10, Some 3)], asks_json = []\<rparr>
     \<lparr>bids = [(10, 2, ''WS'')], asks = [(11, 1, ''API'')], tick_size = 1 / 100,
      last_update_id = 105, auto_print_enabled = True, orderbook_mutex = False,
      best_bid = 10, best_ask = 11, spread = 1\<rparr> =
     Returned (Applied,
       \<lparr>bids = [(10, 3, ''WS'')], asks = [(11, 1, ''API'')], tick_size = 1 / 100,
        last_update_id = 110, auto_print_enabled = True, orderbook_mutex = False,
        best_bid = 10, best_ask = 11, spread = 1\<rparr>) \<and>
   (103 :: 64 word) \<noteq> 105 + 1"
  by (simp add: process_api_snapshot_def process_ws_update_def print_orderbook_def
        calculate_all_metrics_def sweep_bids_def BinanceOrderBook_new_def
        round_to_tick_size_def std_round_def Let_def)

text \<open>
  C1, amended: for two diffs \<open>d1\<close>, \<open>d2\<close> applied one after the other,
  \<open>d2.first_update_id \<le> d1.last_update_id + 1\<close> and
  \<open>d1.last_update_id < d2.last_update_id\<close> (a diff that overlaps the book is applied
  too). A diff whose \<open>last_update_id\<close> is above the book's and whose \<open>first_update_id\<close> is
  above the book's \<open>last_update_id + 1\<close> is not applied: the call does what a snapshot
  fetch does on the untouched book. A diff whose \<open>last_update_id\<close> is not above the
  book's is skipped, with no re-sync.
\<close>

theorem diff_sequence_rule:
  "(process_ws_update f1 d1 b = Returned (Applied, b1) \<and>
    process_ws_update f2 d2 b1 = Returned (Applied, b2) \<longrightarrow>
      first_update_id d2 \<le> update_id d1 + 1 \<and> update_id d1 < update_id d2 \<and>
      last_update_id b2 = update_id d2) \<and>
   (\<not> orderbook_mutex b \<and> last_update_id b < update_id d \<and>
    last_update_id b + 1 < first_update_id d \<longrightarrow>
      (\<exists>r b'. fetch_api_snapshot fetched b = Returned (r, b') \<and>
               process_ws_update fetched d b = Returned (Refetch r, b'))) \<and>
   (update_id d \<le> last_update_id b \<longrightarrow> process_ws_update fetched d b = Returned (Ignored, b))"
proof (intro conjI impI)
  assume a: "process_ws_update f1 d1 b = Returned (Applied, b1) \<and>
    process_ws_update f2 d2 b1 = Returned (Applied, b2)"
  from a process_ws_update_Applied [of f1 d1 b b1] process_ws_update_Applied [of f2 d2 b1 b2]
  show "first_update_id d2 \<le> update_id d1 + 1" and "update_id d1 < update_id d2"
    and "last_update_id b2 = update_id d2"
    by simp_all
next
  assume a: "\<not> orderbook_mutex b \<and> last_update_id b < update_id d \<and>
    last_update_id b + 1 < first_update_id d"
  have "\<exists>r b'. fetch_api_snapshot fetched b = Returned (r, b')"
  proof (cases fetched)
    case None
    then show ?thesis by (simp add: fetch_api_snapshot_def)
  next
    case (Some snap)
    obtain bids1 ok1 where l1:
      "snapshot_levels (tick_size b) (snapshot_bids snap) [] = (bids1, ok1)"
      by (cases "snapshot_levels (tick_size b) (snapshot_bids snap) []")
    obtain asks1 ok2 where l2:
      "snapshot_levels (tick_size b) (snapshot_asks snap) [] = (asks1, ok2)"
      by (cases "snapshot_levels (tick_size b) (snapshot_asks snap) []")
    obtain b3 where pr: "print_orderbook
        (b\<lparr>last_update_id := lastUpdateId snap, bids := bids1, asks := asks1\<rparr>) = Returned b3"
      using print_orderbook_free [of "b\<lparr>last_update_id := lastUpdateId snap, bids := bids1,
        asks := asks1\<rparr>"] a by auto
    show ?thesis
      using a Some l1 l2 pr
      by (auto simp: fetch_api_snapshot_def process_api_snapshot_def Let_def)
  qed
  then obtain r b' where f: "fetch_api_snapshot fetched b = Returned (r, b')" by blast
  have "process_ws_update fetched d b = Returned (Refetch r, b')"
    using a f by (auto simp: process_ws_update_def Let_def)
  with f show "\<exists>r b'. fetch_api_snapshot fetched b = Returned (r, b') \<and>
               process_ws_update fetched d b = Returned (Refetch r, b')"
    by blast
next
  assume "update_id d \<le> last_update_id b"
  then show "process_ws_update fetched d b = Returned (Ignored, b)"
    by (simp add: process_ws_update_def)
qed

theorem diff_sequence_rule_witness:
  "process_ws_update None
     \<lparr>first_update_id = 101, update_id = 105, bids_json = [], asks_json = []\<rparr>
     (BinanceOrderBook_new\<lparr>last_update_id := 100\<rparr>) =
     Returned (Applied, BinanceOrderBook_new\<lparr>last_update_id := 105\<rparr>) \<and>
   process_ws_update None
     \<lparr>first_update_id = 106, update_id = 107, bids_json = [], asks_json = []\<rparr>
     (BinanceOrderBook_new\<lparr>last_update_id := 105\<rparr>) =
     Returned (Applied, BinanceOrderBook_new\<lparr>last_update_id := 107\<rparr>) \<and>
   \<not> orderbook_mutex (BinanceOrderBook_new\<lparr>last_update_id := 100\<rparr>) \<and>
   last_update_id (BinanceOrderBook_new\<lparr>last_update_id := 100\<rparr>) < (104 :: 64 word) \<and>
   last_update_id (BinanceOrderBook_new\<lparr>last_update_id := 100\<rparr>) + 1 < (103 :: 64 word) \<and>
   process_ws_update None
     \<lparr>first_update_id = 103, update_id = 104, bids_json = [(Some 10, Some 1)], asks_json = []\<rparr>
     (BinanceOrderBook_new\<lparr>last_update_id := 100\<rparr>) =
     Returned (Refetch Failed, BinanceOrderBook_new\<lparr>last_update_id := 100\<rparr>) \<and>
   process_ws_update None
     \<lparr>first_update_id = 99, update_id = 100, bids_json = [(Some 10, Some 1)], asks_json = []\<rparr>
     (BinanceOrderBook_new\<lparr>last_update_id := 100\<rparr>) =
     Returned (Ignored, BinanceOrderBook_new\<lparr>last_update_id := 100\<rparr>)"
proof -
  let ?b = "BinanceOrderBook_new\<lparr>last_update_id := 100\<rparr>"
  let ?d1 = "\<lparr>first_update_id = 101, update_id = 105, bids_json = [], asks_json = []\<rparr>"
  let ?d2 = "\<lparr>first_update_id = 106, update_id = 107, bids_json = [], asks_json = []\<rparr>"
  let ?d3 = "\<lparr>first_update_id = 103, update_id = 104, bids_json = [(Some 10, Some 1)],
             asks_json = []\<rparr>"
  let ?d4 = "\<lparr>first_update_id = 99, update_id = 100, bids_json = [(Some 10, Some 1)],
             asks_json = []\<rparr>"
  have h1: "process_ws_update None ?d1 ?b =
      Returned (Applied, BinanceOrderBook_new\<lparr>last_update_id := 105\<rparr>)"
    by (simp add: process_ws_update_def print_orderbook_def calculate_all_metrics_def
          sweep_bids_def BinanceOrderBook_new_def Let_def)
  have h2: "process_ws_update None ?d2 (BinanceOrderBook_new\<lparr>last_update_id := 105\<rparr>) =
      Returned (Applied, BinanceOrderBook_new\<lparr>last_update_id := 107\<rparr>)"
    by (simp add: process_ws_update_def print_orderbook_def calculate_all_metrics_def
          sweep_bids_def BinanceOrderBook_new_def Let_def)
  have h3: "\<not> orderbook_mutex ?b \<and> last_update_id ?b < update_id ?d3 \<and>
      last_update_id ?b + 1 < first_update_id ?d3"
    by (simp add: BinanceOrderBook_new_def)
  have h4: "update_id ?d4 \<le> last_update_id ?b"
    by (simp add: BinanceOrderBook_new_def)
  have f: "fetch_api_snapshot None ?b = Returned (Failed, ?b)"
    by (simp add: fetch_api_snapshot_def)
  note r3 = diff_sequence_rule [of None ?d1 ?b "BinanceOrderBook_new\<lparr>last_update_id := 105\<rparr>"
      None ?d2 "BinanceOrderBook_new\<lparr>last_update_id := 107\<rparr>" ?d3 None]
  note r4 = diff_sequence_rule [of None ?d1 ?b "BinanceOrderBook_new\<lparr>last_update_id := 105\<rparr>"
      None ?d2 "BinanceOrderBook_new\<lparr>last_update_id := 107\<rparr>" ?d4 None]
  have g3: "process_ws_update None ?d3 ?b = Returned (Refetch Failed, ?b)"
    using r3 h3 f by auto
  have g4: "process_ws_update None ?d4 ?b = Returned (Ignored, ?b)"
    using r4 h4 by blast
  from h1 h2 h3 g3 g4 show ?thesis by simp
qed

subsection \<open>The stale-bid sweep\<close>

text \<open>
  C8, as stated: after any snapshot or diff no bid below 95\% of a positive best bid
  remains. The sweep sits in \<open>print_orderbook\<close> behind the auto-print gate; with auto-print
  switched off a snapshot with bids at 100 and 50 is installed as it is, and a following
  diff that adds a bid at 60 leaves all three.
\<close>

theorem stale_bid_kept_without_print:
  "process_api_snapshot
     \<lparr>lastUpdateId = 100, snapshot_bids = [(Some 100, Some 1), (Some 50, Some 1)],
      snapshot_asks = []\<rparr> (disable_auto_print BinanceOrderBook_new) =
     Returned (Applied,
       \<lparr>bids = [(50, 1, ''API''), (100, 1, ''API'')], asks = [], tick_size = 1 / 100,
        last_update_id = 100, auto_print_enabled = False, orderbook_mutex = False,
        best_bid = 100, best_ask = 0, spread = 0\<rparr>) \<and>
   process_ws_update None
     \<lparr>first_update_id = 101, update_id = 101, bids_json = [(Some 60, Some 1)], asks_json = []\<rparr>
     \<lparr>bids = [(50, 1, ''API''), (100, 1, ''API'')], asks = [], tick_size = 1 / 100,
      last_update_id = 100, auto_print_enabled = False, orderbook_mutex = False,
      best_bid = 100, best_ask = 0, spread = 0\<rparr> =
     Returned (Applied,
       \<lparr>bids = [(50, 1, ''API''), (60, 1, ''WS''), (100, 1, ''API'')], asks = [],
        tick_size = 1 / 100, last_update_id = 101, auto_print_enabled = False,
        orderbook_mutex = False, best_bid = 100, best_ask = 0, spread = 0\<rparr>) \<and>
   \<not> no_stale_bid
     \<lparr>bids = [(50, 1, ''API''), (100, 1, ''API'')], asks = [], tick_size = 1 / 100,
      last_update_id = 100, auto_print_enabled = False, orderbook_mutex = False,
      best_bid = 100, best_ask = 0, spread = 0\<rparr> \<and>
   \<not> no_stale_bid
     \<lparr>bids = [(50, 1, ''API''), (60, 1, ''WS''), (100, 1, ''API'')], asks = [],
      tick_size = 1 / 100, last_update_id = 101, auto_print_enabled = False,
      orderbook_mutex = False, best_bid = 100, best_ask = 0, spread = 0\<rparr>"
  by (simp add: process_api_snapshot_def process_ws_update_def print_orderbook_def
        calculate_all_metrics_def disable_auto_print_def BinanceOrderBook_new_def
        round_to_tick_size_def std_round_def no_stale_bid_def best_bid_price_def Let_def)

text \<open>
  C8, amended: after any snapshot or diff that is applied while auto-print is enabled
  (directly, or as the snapshot fetched on a gap), if the best bid is positive then no bid
  priced strictly below 95\% of it remains in the book. With auto-print disabled the sweep
  is not run.
\<close>

theorem no_stale_bid_after_update:
  assumes "auto_print_enabled b"
    and "process_api_snapshot snap b = Returned (Applied, b') \<or>
         process_ws_update fetched d b = Returned (Applied, b') \<or>
         process_ws_update fetched d b = Returned (Refetch Applied, b')"
  shows "no_stale_bid b'"
proof -
  consider (snap) "process_api_snapshot snap b = Returned (Applied, b')"
    | (diff) "process_ws_update fetched d b = Returned (Applied, b')"
    | (gap) "process_ws_update fetched d b = Returned (Refetch Applied, b')"
    using assms(2) by blast
  then show ?thesis
  proof cases
    case snap
    from process_api_snapshot_Applied [OF snap] assms(1)
    obtain bs where "bids b' = sweep_bids bs" by auto
    then show ?thesis by (rule sweep_bids_no_stale)
  next
    case diff
    from process_ws_update_Applied [OF diff] assms(1)
    obtain bs where "bids b' = sweep_bids bs" by auto
    then show ?thesis by (rule sweep_bids_no_stale)
  next
    case gap
    then obtain s where "process_api_snapshot s b = Returned (Applied, b')"
      by (auto simp: process_ws_update_def fetch_api_snapshot_def Let_def
            split: if_splits outcome.splits prod.splits option.splits)
    from process_api_snapshot_Applied [OF this] assms(1)
    obtain bs where "bids b' = sweep_bids bs" by auto
    then show ?thesis by (rule sweep_bids_no_stale)
  qed
qed

theorem no_stale_bid_after_update_witness:
  "auto_print_enabled BinanceOrderBook_new \<and>
   process_api_snapshot
     \<lparr>lastUpdateId = 100, snapshot_bids = [(Some 100, Some 1), (Some 50, Some 1)],
      snapshot_asks = []\<rparr> BinanceOrderBook_new =
     Returned (Applied,
       \<lparr>bids = [(100, 1, ''API'')], asks = [], tick_size = 1 / 100,
        last_update_id = 100, auto_print_enabled = True, orderbook_mutex = False,
        best_bid = 100, best_ask = 0, spread = 0\<rparr>) \<and>
   no_stale_bid
     \<lparr>bids = [(100, 1, ''API'')], asks = [], tick_size = 1 / 100,
      last_update_id = 100, auto_print_enabled = True, orderbook_mutex = False,
      best_bid = 100, best_ask = 0, spread = 0\<rparr>"
proof -
  have h1: "auto_print_enabled BinanceOrderBook_new"
    by (simp add: BinanceOrderBook_new_def)
  have h2: "process_api_snapshot
     \<lparr>lastUpdateId = 100, snapshot_bids = [(Some 100, Some 1), (Some 50, Some 1)],
      snapshot_asks = []\<rparr> BinanceOrderBook_new =
     Returned (Applied,
       \<lparr>bids = [(100, 1, ''API'')], asks = [], tick_size = 1 / 100,
        last_update_id = 100, auto_print_enabled = True, orderbook_mutex = False,
        best_bid = 100, best_ask = 0, spread = 0\<rparr>)"
    by (simp add: process_api_snapshot_def print_orderbook_def calculate_all_metrics_def
          sweep_bids_def BinanceOrderBook_new_def round_to_tick_size_def std_round_def Let_def)
  from no_stale_bid_after_update [OF h1 disjI1, OF h2] h1 h2 show ?thesis by simp
qed

subsection \<open>Tick-size re-aggregation\<close>













end
